theory Spec2Isabelle
  imports Complex_Main
begin

section \<open>Python values used by check_clientes.py\<close>

text \<open>
  Exceptions that the modelled code can raise. Every one of them is a subclass of
  Python's \<open>Exception\<close>, so a handler \<open>except Exception\<close> catches each of them;
  \<open>except ValueError\<close> catches \<open>ValueError\<close> and its subclass \<open>UnicodeEncodeError\<close>.
\<close>

datatype pyexn =
  IndexError | ZeroDivisionError | UnboundLocalError | ValueError | KeyError | UnicodeEncodeError

definition is_ValueError :: "pyexn \<Rightarrow> bool" where
  "is_ValueError e = (e = ValueError \<or> e = UnicodeEncodeError)"

text \<open>
  A Python \<open>float\<close> is a finite number, one of the two infinities, or NaN. A finite
  float is represented by the real number it stands for: rounding to the nearest
  binary64 value is not modelled, overflow to an infinity is (a result whose magnitude
  reaches \<open>2^1024 - 2^970\<close> rounds to an infinity). The sign of zero is not
  modelled either; the code never observes it, since comparisons treat both zeros alike
  and a division by either zero raises.
\<close>

datatype pyfloat = Fin real | PInf | NInf | NaN

definition overflow_bound :: real where
  "overflow_bound = 2 ^ 1024 - 2 ^ 970"

definition round_overflow :: "real \<Rightarrow> pyfloat" where
  "round_overflow v =
     (if overflow_bound \<le> v then PInf
      else if v \<le> - overflow_bound then NInf
      else Fin v)"

text \<open>Comparisons: every ordered comparison with NaN is false, and NaN equals nothing.\<close>

fun flt :: "pyfloat \<Rightarrow> pyfloat \<Rightarrow> bool" where
  "flt NaN _ = False"
| "flt _ NaN = False"
| "flt (Fin a) (Fin b) = (a < b)"
| "flt _ NInf = False"
| "flt NInf _ = True"
| "flt PInf _ = False"
| "flt (Fin a) PInf = True"

definition feq :: "pyfloat \<Rightarrow> pyfloat \<Rightarrow> bool" where
  "feq a b = (a \<noteq> NaN \<and> b \<noteq> NaN \<and> a = b)"

definition fne :: "pyfloat \<Rightarrow> pyfloat \<Rightarrow> bool" where
  "fne a b = (\<not> feq a b)"

definition fle :: "pyfloat \<Rightarrow> pyfloat \<Rightarrow> bool" where
  "fle a b = (flt a b \<or> feq a b)"

definition fgt :: "pyfloat \<Rightarrow> pyfloat \<Rightarrow> bool" where
  "fgt a b = flt b a"

text \<open>
  The builtins \<open>min(a, b)\<close> and \<open>max(a, b)\<close>: the first argument is kept unless the
  second is strictly smaller (larger).
\<close>

definition pymin :: "pyfloat \<Rightarrow> pyfloat \<Rightarrow> pyfloat" where
  "pymin a b = (if flt b a then b else a)"

definition pymax :: "pyfloat \<Rightarrow> pyfloat \<Rightarrow> pyfloat" where
  "pymax a b = (if fgt b a then b else a)"

text \<open>Arithmetic, with the IEEE 754 rules for infinities and NaN.\<close>

fun fneg :: "pyfloat \<Rightarrow> pyfloat" where
  "fneg (Fin a) = Fin (- a)"
| "fneg PInf = NInf"
| "fneg NInf = PInf"
| "fneg NaN = NaN"

fun fadd :: "pyfloat \<Rightarrow> pyfloat \<Rightarrow> pyfloat" where
  "fadd NaN _ = NaN"
| "fadd _ NaN = NaN"
| "fadd (Fin a) (Fin b) = round_overflow (a + b)"
| "fadd PInf NInf = NaN"
| "fadd NInf PInf = NaN"
| "fadd PInf _ = PInf"
| "fadd NInf _ = NInf"
| "fadd (Fin a) b = b"

definition fsub :: "pyfloat \<Rightarrow> pyfloat \<Rightarrow> pyfloat" where
  "fsub a b = fadd a (fneg b)"

definition scale_inf :: "real \<Rightarrow> pyfloat \<Rightarrow> pyfloat" where
  "scale_inf a i = (if a = 0 then NaN else if 0 < a then i else fneg i)"

fun fmul :: "pyfloat \<Rightarrow> pyfloat \<Rightarrow> pyfloat" where
  "fmul NaN _ = NaN"
| "fmul _ NaN = NaN"
| "fmul (Fin a) (Fin b) = round_overflow (a * b)"
| "fmul (Fin a) i = scale_inf a i"
| "fmul i (Fin b) = scale_inf b i"
| "fmul PInf i = i"
| "fmul NInf i = fneg i"

text \<open>Float division raises \<open>ZeroDivisionError\<close> when the divisor is zero, whatever the dividend.\<close>

fun fdiv_nz :: "pyfloat \<Rightarrow> pyfloat \<Rightarrow> pyfloat" where
  "fdiv_nz NaN _ = NaN"
| "fdiv_nz _ NaN = NaN"
| "fdiv_nz (Fin a) (Fin b) = round_overflow (a / b)"
| "fdiv_nz (Fin a) i = Fin 0"
| "fdiv_nz i (Fin b) = (if 0 < b then i else fneg i)"
| "fdiv_nz i j = NaN"

definition fdiv :: "pyfloat \<Rightarrow> pyfloat \<Rightarrow> pyexn + pyfloat" where
  "fdiv a b = (if b = Fin 0 then Inl ZeroDivisionError else Inr (fdiv_nz a b))"

section \<open>Point and Polygon\<close>

record point =
  lon :: pyfloat
  lat :: pyfloat

record polygon =
  coordinates :: "(pyfloat \<times> pyfloat) list"

text \<open>
  One iteration of the loop body of \<open>Polygon.contains_point\<close> up to the reassignment of
  \<open>p1x, p1y\<close>. The state is the flag \<open>inside\<close> and the local \<open>xinters\<close>, which is unbound
  (\<open>None\<close>) until its first assignment and keeps its value across iterations. Reading it
  while unbound raises \<open>UnboundLocalError\<close>; \<open>or\<close> evaluates its right operand only when
  the left one is false.
\<close>

definition edge_step ::
  "point \<Rightarrow> pyfloat \<times> pyfloat \<Rightarrow> pyfloat \<times> pyfloat \<Rightarrow> bool \<times> pyfloat option
     \<Rightarrow> pyexn + (bool \<times> pyfloat option)" where
  "edge_step pt p1 p2 st =
     (let x = lon pt; y = lat pt;
          p1x = fst p1; p1y = snd p1; p2x = fst p2; p2y = snd p2;
          inside = fst st; xinters = snd st
      in
      if fgt y (pymin p1y p2y) then
        if fle y (pymax p1y p2y) then
          if fle x (pymax p1x p2x) then
            (case (if fne p1y p2y
                   then (case fdiv (fmul (fsub y p1y) (fsub p2x p1x)) (fsub p2y p1y) of
                           Inl e \<Rightarrow> Inl e
                         | Inr q \<Rightarrow> Inr (Some (fadd q p1x)))
                   else Inr xinters) of
               Inl e \<Rightarrow> Inl e
             | Inr xinters' \<Rightarrow>
                 if feq p1x p2x then Inr (\<not> inside, xinters')
                 else (case xinters' of
                         None \<Rightarrow> Inl UnboundLocalError
                       | Some xi \<Rightarrow> Inr (if fle x xi then \<not> inside else inside, xinters')))
          else Inr st
        else Inr st
      else Inr st)"

text \<open>
  The loop \<open>for i in range(1, n + 1)\<close>: the state carries \<open>inside\<close>, \<open>xinters\<close> and the
  current \<open>(p1x, p1y)\<close>; \<open>p2\<close> is read at index \<open>i % n\<close>, which is in range whenever the
  loop runs (the read of \<open>coordinates[0]\<close> before the loop has succeeded, so \<open>0 < n\<close>).
\<close>

fun contains_loop ::
  "point \<Rightarrow> (pyfloat \<times> pyfloat) list \<Rightarrow> nat list
     \<Rightarrow> (bool \<times> pyfloat option) \<times> (pyfloat \<times> pyfloat) \<Rightarrow> pyexn + bool" where
  "contains_loop pt cs [] st = Inr (fst (fst st))"
| "contains_loop pt cs (i # is) st =
     (let p2 = cs ! (i mod length cs) in
      case edge_step pt (snd st) p2 (fst st) of
        Inl e \<Rightarrow> Inl e
      | Inr st' \<Rightarrow> contains_loop pt cs is (st', p2))"

definition contains_point :: "polygon \<Rightarrow> point \<Rightarrow> pyexn + bool" where
  "contains_point poly pt =
     (let cs = coordinates poly; n = length cs in
      case cs of
        [] \<Rightarrow> Inl IndexError
      | c0 # _ \<Rightarrow> contains_loop pt cs [1 ..< n + 1] ((False, None), c0))"


text \<open>
  The crossing condition of an edge \<open>(p1, p2)\<close>, written from the description of the
  ray-casting rule (not from the code): the point's \<open>y\<close> is above the lower and not above
  the upper end of the edge, its \<open>x\<close> is not right of the edge, and the edge is vertical
  or \<open>x\<close> is at most the x-intersection. Where the quotient of the x-intersection does not
  exist (zero divisor) the last comparison counts as false.
\<close>

definition crosses :: "point \<Rightarrow> pyfloat \<times> pyfloat \<Rightarrow> pyfloat \<times> pyfloat \<Rightarrow> bool" where
  "crosses pt p1 p2 =
     (let x = lon pt; y = lat pt;
          p1x = fst p1; p1y = snd p1; p2x = fst p2; p2y = snd p2
      in fgt y (pymin p1y p2y) \<and> fle y (pymax p1y p2y) \<and> fle x (pymax p1x p2x) \<and>
         (feq p1x p2x \<or>
          (case fdiv (fmul (fsub y p1y) (fsub p2x p1x)) (fsub p2y p1y) of
             Inl e \<Rightarrow> False
           | Inr q \<Rightarrow> fle x (fadd q p1x))))"

text \<open>The edges of the ring: every vertex paired with its successor, the last with the first.\<close>

definition ring_edges :: "'a list \<Rightarrow> ('a \<times> 'a) list" where
  "ring_edges cs = zip cs (rotate1 cs)"

definition crossings ::
  "point \<Rightarrow> ((pyfloat \<times> pyfloat) \<times> (pyfloat \<times> pyfloat)) list \<Rightarrow> nat" where
  "crossings pt es = length (filter (\<lambda>e. crosses pt (fst e) (snd e)) es)"

section \<open>Strings and the builtin float()\<close>

text \<open>
  Strings are lists of 8-bit characters (Latin-1); a string with a character above 0xFF
  is outside the model. In that range the whitespace of \<open>str.strip\<close> and \<open>str.split\<close>
  is 0x09-0x0D, 0x1C-0x1F, 0x20, 0x85 and 0xA0, and the decimal digits are \<open>0\<close> to
  \<open>9\<close>.
\<close>

definition is_space :: "char \<Rightarrow> bool" where
  "is_space c = (let k = (of_char c :: nat) in
     (9 \<le> k \<and> k \<le> 13) \<or> (28 \<le> k \<and> k \<le> 32) \<or> k = 133 \<or> k = 160)"

definition is_digit :: "char \<Rightarrow> bool" where
  "is_digit c = (48 \<le> (of_char c :: nat) \<and> (of_char c :: nat) \<le> 57)"

definition digit_val :: "char \<Rightarrow> nat" where
  "digit_val c = of_char c - 48"

text \<open>Lower case of an ASCII letter, as used for the case-insensitive words of \<open>float\<close>.\<close>

definition lower :: "char \<Rightarrow> char" where
  "lower c =
     (case map_of (zip ''ABCDEFGHIJKLMNOPQRSTUVWXYZ'' ''abcdefghijklmnopqrstuvwxyz'') c of
        None \<Rightarrow> c
      | Some d \<Rightarrow> d)"

definition strip :: "string \<Rightarrow> string" where
  "strip s = rev (dropWhile is_space (rev (dropWhile is_space s)))"

text \<open>
  \<open>float\<close> strips less: it first turns every non-ASCII whitespace character into a
  space and then strips the ASCII whitespace 0x09-0x0D and 0x20. So 0x85 and 0xA0 are
  stripped and the separators 0x1C-0x1F are not: \<open>float('\x1c1')\<close> raises.
\<close>

definition is_float_space :: "char \<Rightarrow> bool" where
  "is_float_space c = (let k = (of_char c :: nat) in
     (9 \<le> k \<and> k \<le> 13) \<or> k = 32 \<or> k = 133 \<or> k = 160)"

definition float_strip :: "string \<Rightarrow> string" where
  "float_strip s = rev (dropWhile is_float_space (rev (dropWhile is_float_space s)))"

text \<open>\<open>s.split()\<close>: the maximal runs of non-whitespace characters, in order.\<close>

fun split_ws_acc :: "string \<Rightarrow> string \<Rightarrow> string list" where
  "split_ws_acc cur [] = (if cur = [] then [] else [rev cur])"
| "split_ws_acc cur (c # cs) =
     (if is_space c
      then (if cur = [] then split_ws_acc [] cs else rev cur # split_ws_acc [] cs)
      else split_ws_acc (c # cur) cs)"

definition split_ws :: "string \<Rightarrow> string list" where
  "split_ws s = split_ws_acc [] s"

text \<open>\<open>s.split(sep)\<close> for a one-character separator: empty fields are kept, and the
  empty string gives one empty field.\<close>

fun split_on :: "char \<Rightarrow> string \<Rightarrow> string list" where
  "split_on sep [] = [[]]"
| "split_on sep (c # cs) =
     (if c = sep then [] # split_on sep cs
      else (case split_on sep cs of
              [] \<Rightarrow> [[c]]
            | t # ts \<Rightarrow> (c # t) # ts))"

text \<open>
  The grammar that \<open>float\<close> accepts, after stripping its whitespace:
  \<^verbatim>\<open>
  floatvalue  ::= [sign] (floatnumber | "inf" | "infinity" | "nan")   (words in any case)
  floatnumber ::= number [exponent]
  number      ::= [digitpart] "." digitpart | digitpart ["."]
  exponent    ::= ("e" | "E") [sign] digitpart
  digitpart   ::= digit (["_"] digit)*
  \<close>
\<close>

fun digit_run :: "string \<Rightarrow> nat list \<times> string" where
  "digit_run [] = ([], [])"
| "digit_run [c] = (if is_digit c then ([digit_val c], []) else ([], [c]))"
| "digit_run (c # d # cs) =
     (if is_digit c then (let (ds, r) = digit_run (d # cs) in (digit_val c # ds, r))
      else if c = CHR ''_'' \<and> is_digit d then (let (ds, r) = digit_run cs in (digit_val d # ds, r))
      else ([], c # d # cs))"

definition digitpart :: "string \<Rightarrow> (nat list \<times> string) option" where
  "digitpart s =
     (case s of
        [] \<Rightarrow> None
      | c # cs \<Rightarrow> if is_digit c
                  then (let (ds, r) = digit_run cs in Some (digit_val c # ds, r))
                  else None)"

definition digits_nat :: "nat list \<Rightarrow> nat" where
  "digits_nat ds = foldl (\<lambda>a d. 10 * a + d) 0 ds"

definition parse_sign :: "string \<Rightarrow> bool \<times> string" where
  "parse_sign s =
     (case s of
        [] \<Rightarrow> (False, [])
      | c # cs \<Rightarrow> if c = CHR ''-'' then (True, cs)
                  else if c = CHR ''+'' then (False, cs)
                  else (False, s))"

definition parse_number :: "string \<Rightarrow> ((nat list \<times> nat list) \<times> string) option" where
  "parse_number s =
     (case digitpart s of
        Some (ip, r) \<Rightarrow>
          (case r of
             [] \<Rightarrow> Some ((ip, []), [])
           | c # r' \<Rightarrow>
               if c = CHR ''.''
               then (case digitpart r' of
                       Some (fp, r'') \<Rightarrow> Some ((ip, fp), r'')
                     | None \<Rightarrow> Some ((ip, []), r'))
               else Some ((ip, []), r))
      | None \<Rightarrow>
          (case s of
             [] \<Rightarrow> None
           | c # r' \<Rightarrow>
               if c = CHR ''.''
               then (case digitpart r' of
                       Some (fp, r'') \<Rightarrow> Some (([], fp), r'')
                     | None \<Rightarrow> None)
               else None))"

text \<open>The exponent must take up the whole rest of the string; no exponent is exponent 0.\<close>

definition parse_exponent :: "string \<Rightarrow> int option" where
  "parse_exponent s =
     (case s of
        [] \<Rightarrow> Some 0
      | c # cs \<Rightarrow>
          if c = CHR ''e'' \<or> c = CHR ''E''
          then (let (neg, r) = parse_sign cs in
                case digitpart r of
                  None \<Rightarrow> None
                | Some (ds, r') \<Rightarrow>
                    if r' = [] then Some (if neg then - int (digits_nat ds) else int (digits_nat ds))
                    else None)
          else None)"

definition decimal_value :: "nat list \<Rightarrow> nat list \<Rightarrow> int \<Rightarrow> real" where
  "decimal_value ip fp e =
     (let m = real (digits_nat (ip @ fp)); k = e - int (length fp)
      in if 0 \<le> k then m * 10 ^ nat k else m / 10 ^ nat (- k))"

definition decimal_literal :: "string \<Rightarrow> real option" where
  "decimal_literal s =
     (case parse_number s of
        None \<Rightarrow> None
      | Some ((ip, fp), r) \<Rightarrow>
          (case parse_exponent r of
             None \<Rightarrow> None
           | Some e \<Rightarrow> Some (decimal_value ip fp e)))"

definition is_infinity_word :: "string \<Rightarrow> bool" where
  "is_infinity_word s = (map lower s = ''inf'' \<or> map lower s = ''infinity'')"

definition is_nan_word :: "string \<Rightarrow> bool" where
  "is_nan_word s = (map lower s = ''nan'')"

text \<open>\<open>float(s)\<close> for a string \<open>s\<close>: the value, or \<open>ValueError\<close>.\<close>

definition py_float :: "string \<Rightarrow> pyexn + pyfloat" where
  "py_float s =
     (let (neg, r) = parse_sign (float_strip s) in
      if is_infinity_word r then Inr (if neg then NInf else PInf)
      else if is_nan_word r then Inr NaN
      else (case decimal_literal r of
              None \<Rightarrow> Inl ValueError
            | Some v \<Rightarrow> Inr (round_overflow (if neg then - v else v))))"

definition is_finite :: "pyfloat \<Rightarrow> bool" where
  "is_finite f = (case f of Fin v \<Rightarrow> True | _ \<Rightarrow> False)"


section \<open>Parsing coordinates\<close>

text \<open>
  \<open>parse_kml_coordinates\<close>: the loop over the whitespace-separated coordinate sets. A set
  with fewer than two comma-separated parts is passed over; a \<open>ValueError\<close> from \<open>float\<close>
  is caught and the set skipped, any other exception would propagate.
\<close>

fun kml_coord_sets :: "string list \<Rightarrow> pyexn + (pyfloat \<times> pyfloat) list" where
  "kml_coord_sets [] = Inr []"
| "kml_coord_sets (coord_set # rest) =
     (let parts = split_on CHR '','' coord_set in
      if 2 \<le> length parts then
        (case py_float (parts ! 0) of
           Inl e \<Rightarrow> if is_ValueError e then kml_coord_sets rest else Inl e
         | Inr lon_v \<Rightarrow>
             (case py_float (parts ! 1) of
                Inl e \<Rightarrow> if is_ValueError e then kml_coord_sets rest else Inl e
              | Inr lat_v \<Rightarrow>
                  (case kml_coord_sets rest of
                     Inl e \<Rightarrow> Inl e
                   | Inr coords \<Rightarrow> Inr ((lon_v, lat_v) # coords))))
      else kml_coord_sets rest)"

definition parse_kml_coordinates :: "string \<Rightarrow> pyexn + (pyfloat \<times> pyfloat) list" where
  "parse_kml_coordinates coord_string = kml_coord_sets (split_ws (strip coord_string))"

text \<open>
  The KML document enters \<open>load_kml_polygons\<close> through the XML library. It is represented
  by what the library hands to the code: the \<open>Polygon\<close> elements in document order, each
  with the result of the search for its outer-boundary \<open>coordinates\<close> element (absent, or
  present with its text, which is \<open>None\<close> for an element without text).
\<close>

datatype polygon_elem = NoOuterBoundary | OuterBoundary "string option"

fun load_kml_polygons :: "polygon_elem list \<Rightarrow> pyexn + polygon list" where
  "load_kml_polygons [] = Inr []"
| "load_kml_polygons (polygon_elem # rest) =
     (case polygon_elem of
        OuterBoundary (Some text) \<Rightarrow>
          if text \<noteq> [] then
            (case parse_kml_coordinates text of
               Inl e \<Rightarrow> Inl e
             | Inr coords \<Rightarrow>
                 (case load_kml_polygons rest of
                    Inl e \<Rightarrow> Inl e
                  | Inr polygons \<Rightarrow>
                      if 3 \<le> length coords then Inr (\<lparr>coordinates = coords\<rparr> # polygons)
                      else Inr polygons))
          else load_kml_polygons rest
      | _ \<Rightarrow> load_kml_polygons rest)"

text \<open>
  A cell of the CSV column handed to \<open>parse_client_coordinates\<close>: a string, or a missing
  value (\<open>pd.isna\<close> is true of it).
\<close>

datatype cell = Missing | Str string

text \<open>
  \<open>lat, lon = map(float, tokens)\<close>: the unpacking draws the items one by one, so \<open>float\<close>
  runs on a token only when the unpacking asks for it; it asks for a third item to see
  that there is none. Too few or too many items raise \<open>ValueError\<close>.
\<close>

fun unpack2 :: "(string \<Rightarrow> pyexn + 'a) \<Rightarrow> string list \<Rightarrow> pyexn + ('a \<times> 'a)" where
  "unpack2 f [] = Inl ValueError"
| "unpack2 f [a] = (case f a of Inl e \<Rightarrow> Inl e | Inr u \<Rightarrow> Inl ValueError)"
| "unpack2 f (a # b # rest) =
     (case f a of
        Inl e \<Rightarrow> Inl e
      | Inr u \<Rightarrow>
          (case f b of
             Inl e \<Rightarrow> Inl e
           | Inr v \<Rightarrow>
               (case rest of
                  [] \<Rightarrow> Inr (u, v)
                | c # _ \<Rightarrow> (case f c of Inl e \<Rightarrow> Inl e | Inr w \<Rightarrow> Inl ValueError))))"

text \<open>The body of the \<open>try\<close> block of \<open>parse_client_coordinates\<close>.\<close>

definition parse_client_body :: "cell \<Rightarrow> pyexn + point option" where
  "parse_client_body coord_string =
     (case coord_string of
        Missing \<Rightarrow> Inr None
      | Str s \<Rightarrow>
          (case unpack2 py_float (split_on CHR '','' s) of
             Inl e \<Rightarrow> Inl e
           | Inr (lat_v, lon_v) \<Rightarrow> Inr (Some \<lparr>lon = lon_v, lat = lat_v\<rparr>)))"

text \<open>
  \<open>print\<close> encodes its text for the standard output and raises \<open>UnicodeEncodeError\<close>
  when a character has no encoding there. Of the 8-bit characters UTF-8 and Latin-1
  encode all, ASCII those below 0x80, and cp1252 (the Windows default for a redirected
  output) all but 0x80-0x9F. What is written is not modelled, only whether the call
  returns.
\<close>

datatype encoding = UTF8 | Latin1 | CP1252 | ASCII

definition encodable :: "encoding \<Rightarrow> char \<Rightarrow> bool" where
  "encodable enc c =
     (let k = (of_char c :: nat) in
      case enc of
        UTF8 \<Rightarrow> True
      | Latin1 \<Rightarrow> True
      | CP1252 \<Rightarrow> k < 128 \<or> 160 \<le> k
      | ASCII \<Rightarrow> k < 128)"

definition py_print :: "encoding \<Rightarrow> string \<Rightarrow> pyexn + unit" where
  "py_print enc msg = (if list_all (encodable enc) msg then Inr () else Inl UnicodeEncodeError)"

text \<open>\<open>str(coord_string)\<close>: the string itself; a missing value is the float NaN.\<close>

definition cell_str :: "cell \<Rightarrow> string" where
  "cell_str c = (case c of Missing \<Rightarrow> ''nan'' | Str s \<Rightarrow> s)"

text \<open>
  The message of the handler, \<open>Error parsing coordinates '{coord_string}': {e}\<close>. The
  text of the exception \<open>e\<close> is left out: it is ASCII text, with the offending token
  quoted so that every character of it is either escaped to ASCII or a character of
  \<open>coord_string\<close> itself, so it does not change whether the message can be encoded.
\<close>

definition error_message :: "cell \<Rightarrow> string" where
  "error_message coord_string =
     ''Error parsing coordinates '' @ [CHR 0x27] @ cell_str coord_string @ [CHR 0x27] @ '': ''"

text \<open>
  \<open>except Exception\<close> catches every exception of type \<open>pyexn\<close>. The handler prints the
  message and returns \<open>None\<close>; the \<open>print\<close> is not inside a \<open>try\<close>, so an exception
  of it reaches the caller. The first argument is the encoding of the standard output.
\<close>

definition is_Exception :: "pyexn \<Rightarrow> bool" where
  "is_Exception e = True"

definition parse_client_coordinates :: "encoding \<Rightarrow> cell \<Rightarrow> pyexn + point option" where
  "parse_client_coordinates stdout coord_string =
     (case parse_client_body coord_string of
        Inl e \<Rightarrow>
          if is_Exception e
          then (case py_print stdout (error_message coord_string) of
                  Inl e' \<Rightarrow> Inl e'
                | Inr u \<Rightarrow> Inr None)
          else Inl e
      | Inr r \<Rightarrow> Inr r)"

section \<open>Zone membership\<close>

fun point_in_any_polygon :: "point option \<Rightarrow> polygon list \<Rightarrow> pyexn + bool" where
  "point_in_any_polygon None polygons = Inr False"
| "point_in_any_polygon (Some pt) [] = Inr False"
| "point_in_any_polygon (Some pt) (poly # polygons) =
     (case contains_point poly pt of
        Inl e \<Rightarrow> Inl e
      | Inr b \<Rightarrow> if b then Inr True else point_in_any_polygon (Some pt) polygons)"

section \<open>The annotation pipeline of main\<close>

text \<open>
  A data frame is its columns in order, each a label with one value per row. The input
  table read from the CSV has cells only; the working frame also holds the column of
  parsed points and the column of flags.

  \<open>df[c]\<close> raises \<open>KeyError\<close> for an unknown label; \<open>df[c] = values\<close> replaces the
  values of an existing column in place and otherwise appends a new last column;
  \<open>df.drop(columns=[c])\<close> removes the column and raises \<open>KeyError\<close> for an unknown label.
\<close>

datatype val = Cell cell | PointV "point option" | BoolV bool

type_synonym frame = "(string \<times> val list) list"

definition frame_of_table :: "(string \<times> cell list) list \<Rightarrow> frame" where
  "frame_of_table tbl = map (\<lambda>c. (fst c, map Cell (snd c))) tbl"

definition has_column :: "(string \<times> 'a) list \<Rightarrow> string \<Rightarrow> bool" where
  "has_column df c = (c \<in> set (map fst df))"

definition get_column :: "(string \<times> 'a) list \<Rightarrow> string \<Rightarrow> pyexn + 'a" where
  "get_column df c = (case map_of df c of None \<Rightarrow> Inl KeyError | Some vs \<Rightarrow> Inr vs)"

definition set_column :: "frame \<Rightarrow> string \<Rightarrow> val list \<Rightarrow> frame" where
  "set_column df c vs =
     (if has_column df c then map (\<lambda>col. if fst col = c then (c, vs) else col) df
      else df @ [(c, vs)])"

definition drop_column :: "frame \<Rightarrow> string \<Rightarrow> pyexn + frame" where
  "drop_column df c =
     (if has_column df c then Inr (filter (\<lambda>col. fst col \<noteq> c) df) else Inl KeyError)"

text \<open>\<open>Series.apply(f)\<close>: \<open>f\<close> on every value in row order; the first exception ends it.\<close>

fun apply_series :: "('a \<Rightarrow> pyexn + 'b) \<Rightarrow> 'a list \<Rightarrow> pyexn + 'b list" where
  "apply_series f [] = Inr []"
| "apply_series f (v # vs) =
     (case f v of
        Inl e \<Rightarrow> Inl e
      | Inr r \<Rightarrow> (case apply_series f vs of Inl e \<Rightarrow> Inl e | Inr rs \<Rightarrow> Inr (r # rs)))"

text \<open>
  \<open>main\<close> from the frame read from the CSV to the frame written out. The column
  \<open>_point\<close> that the second \<open>apply\<close> reads is the one just assigned, so it is applied to
  the parsed points themselves. The script runs with Python's default standard output,
  UTF-8, which encodes every cell decoded from the CSV.
\<close>

definition main_frame :: "(string \<times> cell list) list \<Rightarrow> polygon_elem list \<Rightarrow> pyexn + frame" where
  "main_frame tbl kml =
     (let df = frame_of_table tbl in
      case load_kml_polygons kml of
        Inl e \<Rightarrow> Inl e
      | Inr polygons \<Rightarrow>
          (case get_column tbl ''Punto gps'' of
             Inl e \<Rightarrow> Inl e
           | Inr gps \<Rightarrow>
               (case apply_series (parse_client_coordinates UTF8) gps of
                  Inl e \<Rightarrow> Inl e
                | Inr points \<Rightarrow>
                    (let df1 = set_column df ''_point'' (map PointV points) in
                     case apply_series (\<lambda>p. point_in_any_polygon p polygons) points of
                       Inl e \<Rightarrow> Inl e
                     | Inr flags \<Rightarrow>
                         (let df2 = set_column df1 ''Inside_Zone'' (map BoolV flags) in
                          drop_column df2 ''_point'')))))"



definition point_finite :: "point \<Rightarrow> bool" where
  "point_finite p = (is_finite (lon p) \<and> is_finite (lat p))"

text \<open>The part of a \<open>float\<close> argument after stripping whitespace and the sign.\<close>

definition unsigned_part :: "string \<Rightarrow> string" where
  "unsigned_part s = snd (parse_sign (float_strip s))"

text \<open>Sample data: the square with corners (0,0) and (4,4), and a second square apart from it.\<close>

definition square4 :: polygon where
  "square4 = \<lparr>coordinates = [(Fin 0, Fin 0), (Fin 4, Fin 0), (Fin 4, Fin 4), (Fin 0, Fin 4)]\<rparr>"

definition square4_far :: polygon where
  "square4_far =
     \<lparr>coordinates = [(Fin 10, Fin 10), (Fin 14, Fin 10), (Fin 14, Fin 14), (Fin 10, Fin 14)]\<rparr>"


section \<open>Properties of the point-in-polygon test\<close>

lemma overflow_bound_pos: "0 < overflow_bound"
  by (simp add: overflow_bound_def)

lemma round_overflow_zero: "round_overflow v = Fin 0 \<longleftrightarrow> v = 0"
  using overflow_bound_pos by (auto simp: round_overflow_def)

lemma y_range_not_eq:
  "fgt y (pymin a b) \<Longrightarrow> fle y (pymax a b) \<Longrightarrow> \<not> feq a b"
  by (cases a; cases b; cases y) (auto simp: fgt_def fle_def feq_def pymin_def pymax_def)

lemma fsub_nonzero: "\<not> feq a b \<Longrightarrow> fsub b a \<noteq> Fin 0"
  by (cases a; cases b) (auto simp: feq_def fsub_def round_overflow_zero)

lemma edge_step_crosses:
  "\<exists>xi. edge_step pt p1 p2 (b, xo) = Inr (b \<noteq> crosses pt p1 p2, xi)"
proof (cases "fgt (lat pt) (pymin (snd p1) (snd p2)) \<and> fle (lat pt) (pymax (snd p1) (snd p2))")
  case True
  then have ne: "\<not> feq (snd p1) (snd p2)" using y_range_not_eq by blast
  then have nz: "fsub (snd p2) (snd p1) \<noteq> Fin 0" by (rule fsub_nonzero)
  show ?thesis using True ne nz
    by (auto simp: edge_step_def crosses_def fdiv_def fne_def Let_def)
next
  case False
  then show ?thesis by (auto simp: edge_step_def crosses_def Let_def)
qed


lemma crossings_Nil: "crossings pt [] = 0"
  by (simp add: crossings_def)

lemma crossings_Cons:
  "crossings pt (e # es) = (if crosses pt (fst e) (snd e) then Suc (crossings pt es) else crossings pt es)"
  by (simp add: crossings_def)

lemma contains_loop_parity:
  "contains_loop pt cs is ((b, xo), p1) =
     Inr (b \<noteq> odd (crossings pt (zip (p1 # map (\<lambda>i. cs ! (i mod length cs)) is)
                                       (map (\<lambda>i. cs ! (i mod length cs)) is))))"
proof (induction "is" arbitrary: b xo p1)
  case Nil
  show ?case by (simp add: crossings_Nil)
next
  case (Cons i "is")
  obtain xi where st: "edge_step pt p1 (cs ! (i mod length cs)) (b, xo)
      = Inr (b \<noteq> crosses pt p1 (cs ! (i mod length cs)), xi)"
    using edge_step_crosses by blast
  show ?case
    by (simp add: st Cons.IH crossings_Cons) blast
qed

lemma indices_rotate1:
  assumes "cs \<noteq> []"
  shows "map (\<lambda>i. cs ! (i mod length cs)) [1 ..< length cs + 1] = rotate1 cs"
proof (rule nth_equalityI)
  show "length (map (\<lambda>i. cs ! (i mod length cs)) [1 ..< length cs + 1]) = length (rotate1 cs)"
    by (simp del: upt_Suc)
next
  fix j assume "j < length (map (\<lambda>i. cs ! (i mod length cs)) [1 ..< length cs + 1])"
  then have j: "j < length cs" by (simp del: upt_Suc)
  from j show "map (\<lambda>i. cs ! (i mod length cs)) [1 ..< length cs + 1] ! j = rotate1 cs ! j"
    by (simp add: nth_rotate1 del: upt_Suc)
qed

lemma zip_ring: "zip (c # rotate1 (c # t)) (rotate1 (c # t)) = ring_edges (c # t)"
proof -
  have "zip ((c # t) @ [c]) (t @ [c]) = zip (c # t) (t @ [c])"
    by (rule zip_append1 [THEN trans]) simp
  then show ?thesis by (simp add: ring_edges_def)
qed

lemma contains_point_parity:
  assumes "coordinates poly \<noteq> []"
  shows "contains_point poly pt = Inr (odd (crossings pt (ring_edges (coordinates poly))))"
proof -
  from assms obtain c t where cs: "coordinates poly = c # t"
    by (cases "coordinates poly") auto
  have idx: "map (\<lambda>i. (c # t) ! (i mod length (c # t))) [1 ..< length (c # t) + 1] = rotate1 (c # t)"
    by (rule indices_rotate1) simp
  have "contains_point poly pt = contains_loop pt (c # t) [1 ..< length (c # t) + 1] ((False, None), c)"
    by (simp add: contains_point_def cs)
  also have "\<dots> = Inr (odd (crossings pt (zip (c # rotate1 (c # t)) (rotate1 (c # t)))))"
    unfolding contains_loop_parity idx by simp
  finally show ?thesis by (simp only: zip_ring cs)
qed

lemma zip_rotate1:
  "length xs = length ys \<Longrightarrow> zip (rotate1 xs) (rotate1 ys) = rotate1 (zip xs ys)"
  by (cases xs; cases ys) auto

lemma ring_edges_rotate1: "ring_edges (rotate1 cs) = rotate1 (ring_edges cs)"
  by (simp add: ring_edges_def zip_rotate1)

lemma crossings_rotate1: "crossings pt (rotate1 es) = crossings pt es"
  by (cases es) (auto simp: crossings_def)

lemma contains_point_rotate1:
  "contains_point (poly\<lparr>coordinates := rotate1 (coordinates poly)\<rparr>) pt = contains_point poly pt"
proof (cases "coordinates poly = []")
  case True
  then show ?thesis by (simp add: contains_point_def)
next
  case False
  then show ?thesis
    by (simp add: contains_point_parity ring_edges_rotate1 crossings_rotate1)
qed

lemma overflow_bound_large: "10000 < overflow_bound"
  by (simp add: overflow_bound_def)

lemma round_overflow_small: "\<bar>v\<bar> \<le> 10000 \<Longrightarrow> round_overflow v = Fin v"
  using overflow_bound_large by (auto simp: round_overflow_def)

lemmas float_eval = fgt_def fle_def feq_def fne_def pymin_def pymax_def fdiv_def fsub_def
  round_overflow_small

lemmas contains_eval = contains_point_def edge_step_def upt_rec float_eval

lemma square4_inside: "contains_point square4 \<lparr>lon = Fin 2, lat = Fin 2\<rparr> = Inr True"
  by (simp add: square4_def contains_eval)

lemma square4_outside: "contains_point square4 \<lparr>lon = Fin 5, lat = Fin 5\<rparr> = Inr False"
  by (simp add: square4_def contains_eval)

lemma square4_outside_far: "contains_point square4 \<lparr>lon = Fin 12, lat = Fin 12\<rparr> = Inr False"
  by (simp add: square4_def contains_eval)

lemma square4_far_inside: "contains_point square4_far \<lparr>lon = Fin 12, lat = Fin 12\<rparr> = Inr True"
  by (simp add: square4_far_def contains_eval)

lemma square4_far_outside: "contains_point square4_far \<lparr>lon = Fin 2, lat = Fin 2\<rparr> = Inr False"
  by (simp add: square4_far_def contains_eval)

lemma square4_far_outside5: "contains_point square4_far \<lparr>lon = Fin 5, lat = Fin 5\<rparr> = Inr False"
  by (simp add: square4_far_def contains_eval)

text \<open>
  Claim C1. For a polygon with at least one vertex (every polygon of the data model has
  three or more) and every point, \<open>contains_point\<close> returns true exactly when an odd
  number of the ring's edges, the last vertex joined to the first, satisfy the crossing
  condition; and one pass of the loop body on an edge toggles the flag exactly when that
  edge satisfies it. (On the empty vertex list the read of \<open>coordinates[0]\<close> raises.)
\<close>

theorem contains_point_odd_crossings:
  "(coordinates poly \<noteq> [] \<longrightarrow>
      contains_point poly pt = Inr (odd (crossings pt (ring_edges (coordinates poly))))) \<and>
   (\<exists>xi. edge_step pt p1 p2 (inside, xo) = Inr (inside \<noteq> crosses pt p1 p2, xi))"
  using contains_point_parity edge_step_crosses by blast

theorem contains_point_odd_crossings_witness:
  "coordinates square4 \<noteq> [] \<and>
   contains_point square4 \<lparr>lon = Fin 2, lat = Fin 2\<rparr> = Inr True \<and>
   crossings \<lparr>lon = Fin 2, lat = Fin 2\<rparr> (ring_edges (coordinates square4)) = 1"
proof -
  have ne: "coordinates square4 \<noteq> []"
    by (simp add: square4_def)
  have n: "crossings \<lparr>lon = Fin 2, lat = Fin 2\<rparr> (ring_edges (coordinates square4)) = 1"
    by (simp add: square4_def crossings_def ring_edges_def crosses_def float_eval)
  from contains_point_odd_crossings [where poly = square4 and pt = "\<lparr>lon = Fin 2, lat = Fin 2\<rparr>"] ne
  have "contains_point square4 \<lparr>lon = Fin 2, lat = Fin 2\<rparr>
      = Inr (odd (crossings \<lparr>lon = Fin 2, lat = Fin 2\<rparr> (ring_edges (coordinates square4))))"
    by blast
  with ne n show ?thesis by simp
qed

text \<open>
  Claim C5. For an edge whose end points have equal \<open>y\<close> the y-range test fails for
  every point, the edge is no crossing, and the loop body leaves the flag (and
  \<open>xinters\<close>) as they were.
\<close>

theorem horizontal_edge_no_crossing:
  assumes "feq (snd p1) (snd p2)"
  shows "\<not> (fgt (lat pt) (pymin (snd p1) (snd p2)) \<and> fle (lat pt) (pymax (snd p1) (snd p2))) \<and>
         \<not> crosses pt p1 p2 \<and>
         edge_step pt p1 p2 (inside, xo) = Inr (inside, xo)"
proof -
  have r: "\<not> (fgt (lat pt) (pymin (snd p1) (snd p2)) \<and> fle (lat pt) (pymax (snd p1) (snd p2)))"
    using assms y_range_not_eq by blast
  then show ?thesis
    by (auto simp: crosses_def edge_step_def Let_def)
qed

theorem horizontal_edge_no_crossing_witness:
  "feq (snd (Fin 0, Fin 2)) (snd (Fin 4, Fin 2)) \<and>
   \<not> crosses \<lparr>lon = Fin 1, lat = Fin 2\<rparr> (Fin 0, Fin 2) (Fin 4, Fin 2) \<and>
   edge_step \<lparr>lon = Fin 1, lat = Fin 2\<rparr> (Fin 0, Fin 2) (Fin 4, Fin 2) (True, None) = Inr (True, None)"
proof -
  have h: "feq (snd (Fin 0, Fin 2)) (snd (Fin 4, Fin 2))"
    by (simp add: feq_def)
  from horizontal_edge_no_crossing [OF h, where pt = "\<lparr>lon = Fin 1, lat = Fin 2\<rparr>"
      and inside = True and xo = None] h
  show ?thesis by blast
qed

text \<open>
  Claim C6. Starting the ring at another vertex, that is rotating the vertex list by any
  number of places, does not change the result of \<open>contains_point\<close>.
\<close>

theorem contains_point_rotate:
  "contains_point (poly\<lparr>coordinates := rotate k (coordinates poly)\<rparr>) pt = contains_point poly pt"
proof (induction k)
  case 0
  show ?case by simp
next
  case (Suc k)
  have "contains_point (poly\<lparr>coordinates := rotate (Suc k) (coordinates poly)\<rparr>) pt
      = contains_point ((poly\<lparr>coordinates := rotate k (coordinates poly)\<rparr>)
           \<lparr>coordinates := rotate1 (coordinates (poly\<lparr>coordinates := rotate k (coordinates poly)\<rparr>))\<rparr>) pt"
    by simp
  also have "\<dots> = contains_point (poly\<lparr>coordinates := rotate k (coordinates poly)\<rparr>) pt"
    by (rule contains_point_rotate1)
  finally show ?case using Suc.IH by simp
qed

theorem contains_point_rotate_witness:
  "contains_point \<lparr>coordinates = [(Fin 4, Fin 4), (Fin 0, Fin 4), (Fin 0, Fin 0), (Fin 4, Fin 0)]\<rparr>
      \<lparr>lon = Fin 2, lat = Fin 2\<rparr> = Inr True"
  using contains_point_rotate [where poly = square4 and k = 2 and pt = "\<lparr>lon = Fin 2, lat = Fin 2\<rparr>"] square4_inside
  by (simp add: square4_def rotate_def numeral_2_eq_2)

text \<open>
  Claim C10. For a polygon with at least one vertex and any point, also with infinite or
  NaN coordinates, \<open>contains_point\<close> returns a boolean. Whenever the y-range guard
  holds the two \<open>y\<close> values differ and the divisor \<open>p2y - p1y\<close> is not zero, so the
  division succeeds and \<open>xinters\<close> is assigned before it is read; the loop body never
  raises, from any state.
\<close>

theorem contains_point_total:
  "(coordinates poly \<noteq> [] \<longrightarrow> (\<exists>b. contains_point poly pt = Inr b)) \<and>
   (fgt (lat pt) (pymin (snd p1) (snd p2)) \<and> fle (lat pt) (pymax (snd p1) (snd p2)) \<longrightarrow>
      fne (snd p1) (snd p2) \<and> fsub (snd p2) (snd p1) \<noteq> Fin 0 \<and>
      (\<exists>q. fdiv num (fsub (snd p2) (snd p1)) = Inr q)) \<and>
   (\<exists>st'. edge_step pt p1 p2 st = Inr st')"
proof (intro conjI impI)
  assume "coordinates poly \<noteq> []"
  then show "\<exists>b. contains_point poly pt = Inr b"
    by (simp add: contains_point_parity)
next
  assume g: "fgt (lat pt) (pymin (snd p1) (snd p2)) \<and> fle (lat pt) (pymax (snd p1) (snd p2))"
  then have ne: "\<not> feq (snd p1) (snd p2)"
    using y_range_not_eq by blast
  then show "fne (snd p1) (snd p2)"
    by (simp add: fne_def)
  from ne show nz: "fsub (snd p2) (snd p1) \<noteq> Fin 0"
    by (rule fsub_nonzero)
  then show "\<exists>q. fdiv num (fsub (snd p2) (snd p1)) = Inr q"
    by (simp add: fdiv_def)
next
  obtain b xo where st: "st = (b, xo)"
    by (cases st)
  show "\<exists>st'. edge_step pt p1 p2 st = Inr st'"
    unfolding st using edge_step_crosses [of pt p1 p2 b xo] by blast
qed

theorem contains_point_total_witness:
  "coordinates square4 \<noteq> [] \<and>
   contains_point square4 \<lparr>lon = PInf, lat = NaN\<rparr> = Inr False \<and>
   fgt (lat \<lparr>lon = Fin 2, lat = Fin 2\<rparr>) (pymin (snd (Fin 4, Fin 0)) (snd (Fin 4, Fin 4))) \<and>
   fle (lat \<lparr>lon = Fin 2, lat = Fin 2\<rparr>) (pymax (snd (Fin 4, Fin 0)) (snd (Fin 4, Fin 4))) \<and>
   fdiv (Fin 0) (fsub (snd (Fin 4, Fin 4)) (snd (Fin 4, Fin 0))) = Inr (Fin 0)"
proof -
  have ne: "coordinates square4 \<noteq> []"
    by (simp add: square4_def)
  have g: "fgt (lat \<lparr>lon = Fin 2, lat = Fin 2\<rparr>) (pymin (snd (Fin 4, Fin 0)) (snd (Fin 4, Fin 4))) \<and>
           fle (lat \<lparr>lon = Fin 2, lat = Fin 2\<rparr>) (pymax (snd (Fin 4, Fin 0)) (snd (Fin 4, Fin 4)))"
    by (simp add: float_eval)
  have c: "contains_point square4 \<lparr>lon = PInf, lat = NaN\<rparr> = Inr False"
    by (simp add: square4_def contains_eval)
  from contains_point_total [where poly = square4 and pt = "\<lparr>lon = Fin 2, lat = Fin 2\<rparr>"
      and ?p1.0 = "(Fin 4, Fin 0)" and ?p2.0 = "(Fin 4, Fin 4)" and num = "Fin 0"] g
  have "\<exists>q. fdiv (Fin 0) (fsub (snd (Fin 4, Fin 4)) (snd (Fin 4, Fin 0))) = Inr q"
    by blast
  then have "fdiv (Fin 0) (fsub (snd (Fin 4, Fin 4)) (snd (Fin 4, Fin 0))) = Inr (Fin 0)"
    by (auto simp: float_eval)
  with ne g c show ?thesis by blast
qed


section \<open>Properties of the zone membership query\<close>

lemma point_in_any_polygon_exists:
  "\<forall>p\<in>set ps. coordinates p \<noteq> [] \<Longrightarrow>
   point_in_any_polygon (Some pt) ps = Inr (\<exists>p\<in>set ps. contains_point p pt = Inr True)"
proof (induction ps)
  case Nil
  show ?case by simp
next
  case (Cons p ps)
  then have "contains_point p pt = Inr (odd (crossings pt (ring_edges (coordinates p))))"
    by (simp add: contains_point_parity)
  with Cons show ?case by auto
qed

lemma point_in_any_polygon_first_true:
  "\<forall>q\<in>set ps. contains_point q pt = Inr False \<Longrightarrow> contains_point p pt = Inr True \<Longrightarrow>
   point_in_any_polygon (Some pt) (ps @ p # qs) = Inr True"
  by (induction ps) auto

text \<open>
  Claim C2. A missing point gives false without any error, whatever the polygons. For a
  point and polygons that each have at least one vertex, \<open>point_in_any_polygon\<close> returns
  true exactly when \<open>contains_point\<close> is true for some polygon of the list. The polygons
  are tried in order and the search stops at the first one that contains the point: what
  follows it in the list is not looked at. In particular, for two polygons the result is
  true for a point inside either and false for a point inside neither.
\<close>

theorem point_in_any_polygon_iff:
  "point_in_any_polygon None ps = Inr False \<and>
   ((\<forall>p\<in>set ps. coordinates p \<noteq> []) \<longrightarrow>
      point_in_any_polygon (Some pt) ps = Inr (\<exists>p\<in>set ps. contains_point p pt = Inr True)) \<and>
   ((\<forall>q\<in>set ps. contains_point q pt = Inr False) \<and> contains_point p pt = Inr True \<longrightarrow>
      point_in_any_polygon (Some pt) (ps @ p # qs) = Inr True) \<and>
   (coordinates a \<noteq> [] \<and> coordinates b \<noteq> [] \<longrightarrow>
      point_in_any_polygon (Some pt) [a, b]
        = Inr (contains_point a pt = Inr True \<or> contains_point b pt = Inr True))"
proof (intro conjI impI)
  show "point_in_any_polygon None ps = Inr False" by simp
next
  assume "\<forall>p\<in>set ps. coordinates p \<noteq> []"
  then show "point_in_any_polygon (Some pt) ps = Inr (\<exists>p\<in>set ps. contains_point p pt = Inr True)"
    by (rule point_in_any_polygon_exists)
next
  assume "(\<forall>q\<in>set ps. contains_point q pt = Inr False) \<and> contains_point p pt = Inr True"
  then show "point_in_any_polygon (Some pt) (ps @ p # qs) = Inr True"
    by (simp add: point_in_any_polygon_first_true)
next
  assume "coordinates a \<noteq> [] \<and> coordinates b \<noteq> []"
  then have "\<forall>p\<in>set [a, b]. coordinates p \<noteq> []" by simp
  then have "point_in_any_polygon (Some pt) [a, b]
      = Inr (\<exists>p\<in>set [a, b]. contains_point p pt = Inr True)"
    by (rule point_in_any_polygon_exists)
  then show "point_in_any_polygon (Some pt) [a, b]
      = Inr (contains_point a pt = Inr True \<or> contains_point b pt = Inr True)"
    by simp
qed

theorem point_in_any_polygon_iff_witness:
  "coordinates square4 \<noteq> [] \<and> coordinates square4_far \<noteq> [] \<and>
   point_in_any_polygon (Some \<lparr>lon = Fin 2, lat = Fin 2\<rparr>) [square4, square4_far] = Inr True \<and>
   point_in_any_polygon (Some \<lparr>lon = Fin 12, lat = Fin 12\<rparr>) [square4, square4_far] = Inr True \<and>
   point_in_any_polygon (Some \<lparr>lon = Fin 5, lat = Fin 5\<rparr>) [square4, square4_far] = Inr False \<and>
   point_in_any_polygon None [square4, square4_far] = Inr False"
proof -
  have ne: "coordinates square4 \<noteq> [] \<and> coordinates square4_far \<noteq> []"
    by (simp add: square4_def square4_far_def)
  have two: "point_in_any_polygon (Some pt) [square4, square4_far]
      = Inr (contains_point square4 pt = Inr True \<or> contains_point square4_far pt = Inr True)" for pt
    using point_in_any_polygon_iff [where a = square4 and b = square4_far and pt = pt] ne by blast
  have none: "point_in_any_polygon None [square4, square4_far] = Inr False"
    using point_in_any_polygon_iff [where ps = "[square4, square4_far]"] by blast
  have a: "point_in_any_polygon (Some \<lparr>lon = Fin 2, lat = Fin 2\<rparr>) [square4, square4_far] = Inr True"
    by (subst two) (simp add: square4_inside)
  have b: "point_in_any_polygon (Some \<lparr>lon = Fin 12, lat = Fin 12\<rparr>) [square4, square4_far] = Inr True"
    by (subst two) (simp add: square4_far_inside)
  have c: "point_in_any_polygon (Some \<lparr>lon = Fin 5, lat = Fin 5\<rparr>) [square4, square4_far] = Inr False"
    by (subst two) (simp add: square4_outside square4_far_outside5)
  from ne a b c none show ?thesis by blast
qed

section \<open>Properties of the coordinate parser\<close>

lemma split_on_no_sep: "sep \<notin> set a \<Longrightarrow> split_on sep a = [a]"
  by (induction a) auto

lemma split_on_append: "sep \<notin> set a \<Longrightarrow> split_on sep (a @ sep # b) = a # split_on sep b"
  by (induction a) auto

lemma split_on_two:
  "sep \<notin> set a \<Longrightarrow> sep \<notin> set b \<Longrightarrow> split_on sep (a @ sep # b) = [a, b]"
  by (simp add: split_on_append split_on_no_sep)

lemma py_float_error: "py_float s = Inl e \<Longrightarrow> e = ValueError"
  by (auto simp: py_float_def split: prod.splits if_splits option.splits)

lemma unpack2_error: "unpack2 py_float ts = Inl e \<Longrightarrow> e = ValueError"
  by (induction py_float ts rule: unpack2.induct)
     (auto split: sum.splits list.splits dest: py_float_error)

lemma unpack2_two:
  "f a = Inr u \<Longrightarrow> f b = Inr v \<Longrightarrow> unpack2 f [a, b] = Inr (u, v)"
  by simp

lemma unpack2_Inr:
  "unpack2 f ts = Inr (u, v) \<Longrightarrow> \<exists>a b. ts = [a, b] \<and> f a = Inr u \<and> f b = Inr v"
  by (induction f ts rule: unpack2.induct) (auto split: sum.splits list.splits)

lemma unpack2_length: "length ts \<noteq> 2 \<Longrightarrow> \<exists>e. unpack2 f ts = Inl e"
  by (induction f ts rule: unpack2.induct) (auto split: sum.splits list.splits)

lemma unpack2_bad_token:
  "t \<in> set ts \<Longrightarrow> f t = Inl e \<Longrightarrow> \<exists>e'. unpack2 f ts = Inl e'"
proof (cases "length ts = 2")
  case False
  then show ?thesis by (rule unpack2_length)
next
  case True
  assume t: "t \<in> set ts" "f t = Inl e"
  from True obtain a b where ts: "ts = [a, b]"
    by (cases ts; cases "tl ts") auto
  with t show ?thesis by (auto split: sum.splits)
qed

lemma parse_client_success:
  "split_on CHR '','' s = [a, b] \<Longrightarrow> py_float a = Inr u \<Longrightarrow> py_float b = Inr v \<Longrightarrow>
   parse_client_coordinates stdout (Str s) = Inr (Some \<lparr>lon = v, lat = u\<rparr>)"
  by (simp add: parse_client_coordinates_def parse_client_body_def)

lemma encodable_ascii: "(of_char c :: nat) < 128 \<Longrightarrow> encodable enc c"
  by (cases enc) (simp_all add: encodable_def)

lemma error_message_encodable:
  "list_all (encodable enc) (error_message c) = list_all (encodable enc) (cell_str c)"
  by (simp add: error_message_def encodable_ascii)

lemma py_print_message:
  "py_print enc (error_message c)
     = (if list_all (encodable enc) (cell_str c) then Inr () else Inl UnicodeEncodeError)"
  by (simp add: py_print_def error_message_encodable)

lemma parse_client_failure:
  "unpack2 py_float (split_on CHR '','' s) = Inl e \<Longrightarrow> list_all (encodable stdout) s \<Longrightarrow>
   parse_client_coordinates stdout (Str s) = Inr None"
  by (simp add: parse_client_coordinates_def parse_client_body_def is_Exception_def
      py_print_message cell_str_def)

lemma parse_client_failure_raises:
  "unpack2 py_float (split_on CHR '','' s) = Inl e \<Longrightarrow> \<not> list_all (encodable stdout) s \<Longrightarrow>
   parse_client_coordinates stdout (Str s) = Inl UnicodeEncodeError"
  by (simp add: parse_client_coordinates_def parse_client_body_def is_Exception_def
      py_print_message cell_str_def)

lemma parse_client_Missing: "parse_client_coordinates stdout Missing = Inr None"
  by (simp add: parse_client_coordinates_def parse_client_body_def)

lemma parse_client_returns_printable:
  "list_all (encodable stdout) (cell_str c) \<Longrightarrow> \<exists>r. parse_client_coordinates stdout c = Inr r"
  by (auto simp: parse_client_coordinates_def is_Exception_def py_print_message split: sum.splits)

lemma parse_client_raises_only_print:
  "parse_client_coordinates stdout c = Inl e \<Longrightarrow>
   e = UnicodeEncodeError \<and> \<not> list_all (encodable stdout) (cell_str c) \<and>
   (\<exists>e'. parse_client_body c = Inl e')"
  by (auto simp: parse_client_coordinates_def is_Exception_def py_print_message
           split: sum.splits if_splits)

lemma list_all_utf8: "list_all (encodable UTF8) s"
  by (induction s) (simp_all add: encodable_def)


lemma parse_client_Some:
  assumes "parse_client_coordinates stdout c = Inr (Some p)"
  shows "\<exists>s a b. c = Str s \<and> split_on CHR '','' s = [a, b] \<and>
           py_float a = Inr (lat p) \<and> py_float b = Inr (lon p)"
proof (cases c)
  case Missing
  with assms show ?thesis
    by (simp add: parse_client_coordinates_def parse_client_body_def)
next
  case (Str s)
  with assms obtain u v where uv: "unpack2 py_float (split_on CHR '','' s) = Inr (u, v)"
      and p: "p = \<lparr>lon = v, lat = u\<rparr>"
    by (auto simp: parse_client_coordinates_def parse_client_body_def is_Exception_def
             split: sum.splits if_splits)
  from unpack2_Inr [OF uv] p Str show ?thesis by auto
qed

lemmas py_float_eval = py_float_def float_strip_def is_float_space_def parse_sign_def is_infinity_word_def
  is_nan_word_def lower_def decimal_literal_def parse_number_def digitpart_def is_digit_def
  digit_val_def parse_exponent_def decimal_value_def digits_nat_def

lemma py_float_12_5: "py_float ''12.5'' = Inr (Fin 12.5)"
  by (simp add: py_float_eval round_overflow_small)

lemma py_float_34_2: "py_float ''34.2'' = Inr (Fin 34.2)"
  by (simp add: py_float_eval round_overflow_small)

lemma py_float_abc: "py_float ''abc'' = Inl ValueError"
  by (simp add: py_float_eval)

lemma py_float_empty: "py_float [] = Inl ValueError"
  by (simp add: py_float_eval)

lemma py_float_inf: "py_float ''inf'' = Inr PInf"
  by (simp add: py_float_eval)

lemma py_float_nan: "py_float ''nan'' = Inr NaN"
  by (simp add: py_float_eval)

text \<open>
  Claim C3. A string of two tokens that \<open>float\<close> accepts, separated by a single comma, is
  read as latitude, longitude and parses to the point whose \<open>lon\<close> is the second number
  and whose \<open>lat\<close> is the first; \<open>12.5,34.2\<close> parses to the point with \<open>lon = 34.2\<close>
  and \<open>lat = 12.5\<close>.
\<close>

theorem parse_client_coordinates_swaps:
  "(CHR '','' \<notin> set a \<and> CHR '','' \<notin> set b \<and> py_float a = Inr u \<and> py_float b = Inr v \<longrightarrow>
      parse_client_coordinates stdout (Str (a @ CHR '','' # b))
        = Inr (Some \<lparr>lon = v, lat = u\<rparr>)) \<and>
   parse_client_coordinates stdout (Str ''12.5,34.2'')
     = Inr (Some \<lparr>lon = Fin 34.2, lat = Fin 12.5\<rparr>)"
proof (intro conjI impI)
  assume h: "CHR '','' \<notin> set a \<and> CHR '','' \<notin> set b \<and> py_float a = Inr u \<and> py_float b = Inr v"
  then have "split_on CHR '','' (a @ CHR '','' # b) = [a, b]"
    by (simp add: split_on_two)
  with h show "parse_client_coordinates stdout (Str (a @ CHR '','' # b))
      = Inr (Some \<lparr>lon = v, lat = u\<rparr>)"
    by (simp add: parse_client_success)
next
  have "split_on CHR '','' ''12.5,34.2'' = [''12.5'', ''34.2'']"
    by simp
  then show "parse_client_coordinates stdout (Str ''12.5,34.2'')
      = Inr (Some \<lparr>lon = Fin 34.2, lat = Fin 12.5\<rparr>)"
    using py_float_12_5 py_float_34_2 by (rule parse_client_success)
qed

theorem parse_client_coordinates_swaps_witness:
  "CHR '','' \<notin> set ''-33.5'' \<and> CHR '','' \<notin> set ''inf'' \<and>
   parse_client_coordinates ASCII (Str ''-33.5,inf'')
     = Inr (Some \<lparr>lon = PInf, lat = Fin (-33.5)\<rparr>)"
proof -
  have f: "py_float ''-33.5'' = Inr (Fin (-33.5))"
    by (simp add: py_float_eval round_overflow_small)
  have c: "CHR '','' \<notin> set ''-33.5'' \<and> CHR '','' \<notin> set ''inf''"
    by simp
  from parse_client_coordinates_swaps [where a = "''-33.5''" and b = "''inf''"
      and u = "Fin (-33.5)" and v = PInf and stdout = ASCII] c f py_float_inf
  have "parse_client_coordinates ASCII (Str (''-33.5'' @ CHR '','' # ''inf''))
      = Inr (Some \<lparr>lon = PInf, lat = Fin (-33.5)\<rparr>)"
    by blast
  with c show ?thesis by simp
qed

text \<open>
  What the parser does when nothing goes wrong with the output: with a standard output
  that can encode the string, it returns for every input, \<open>None\<close> on each failure
  condition and a point for two tokens that \<open>float\<close> accepts.
\<close>

lemma parse_client_coordinates_printable:
  "(list_all (encodable stdout) (cell_str c) \<longrightarrow> (\<exists>r. parse_client_coordinates stdout c = Inr r)) \<and>
   parse_client_coordinates stdout Missing = Inr None \<and>
   parse_client_coordinates stdout (Str []) = Inr None \<and>
   parse_client_coordinates stdout (Str ''abc'') = Inr None \<and>
   (list_all (encodable stdout) s \<and> length (split_on CHR '','' s) \<noteq> 2 \<longrightarrow>
      parse_client_coordinates stdout (Str s) = Inr None) \<and>
   (list_all (encodable stdout) s \<and>
    (\<exists>t\<in>set (split_on CHR '','' s). py_float t = Inl ValueError) \<longrightarrow>
      parse_client_coordinates stdout (Str s) = Inr None) \<and>
   (split_on CHR '','' s = [a, b] \<and> py_float a = Inr u \<and> py_float b = Inr v \<longrightarrow>
      parse_client_coordinates stdout (Str s) = Inr (Some \<lparr>lon = v, lat = u\<rparr>))"
proof (intro conjI impI)
  assume "list_all (encodable stdout) (cell_str c)"
  then show "\<exists>r. parse_client_coordinates stdout c = Inr r"
    by (rule parse_client_returns_printable)
next
  show "parse_client_coordinates stdout Missing = Inr None"
    by (rule parse_client_Missing)
  show "parse_client_coordinates stdout (Str []) = Inr None"
    by (rule parse_client_failure [where e = ValueError]) (simp_all add: py_float_empty)
  show "parse_client_coordinates stdout (Str ''abc'') = Inr None"
    by (rule parse_client_failure [where e = ValueError])
       (simp_all add: py_float_abc encodable_ascii)
next
  assume h: "list_all (encodable stdout) s \<and> length (split_on CHR '','' s) \<noteq> 2"
  then obtain e where "unpack2 py_float (split_on CHR '','' s) = Inl e"
    using unpack2_length by blast
  with h show "parse_client_coordinates stdout (Str s) = Inr None"
    by (simp add: parse_client_failure)
next
  assume h: "list_all (encodable stdout) s \<and>
    (\<exists>t\<in>set (split_on CHR '','' s). py_float t = Inl ValueError)"
  then obtain e where "unpack2 py_float (split_on CHR '','' s) = Inl e"
    using unpack2_bad_token by blast
  with h show "parse_client_coordinates stdout (Str s) = Inr None"
    by (simp add: parse_client_failure)
next
  assume "split_on CHR '','' s = [a, b] \<and> py_float a = Inr u \<and> py_float b = Inr v"
  then show "parse_client_coordinates stdout (Str s) = Inr (Some \<lparr>lon = v, lat = u\<rparr>)"
    by (simp add: parse_client_success)
qed

text \<open>
  A leading separator character 0x1C is whitespace for \<open>str.split\<close> but not for
  \<open>float\<close>, so a token that starts with it is rejected and the parser returns \<open>None\<close>.
\<close>

lemma py_float_separator: "py_float [CHR 0x1C, CHR ''1''] = Inl ValueError"
  by (simp add: py_float_eval)

lemma parse_client_separator:
  "parse_client_coordinates UTF8 (Str [CHR 0x1C, CHR ''1'', CHR '','', CHR ''2'']) = Inr None"
  by (rule parse_client_failure [where e = ValueError])
     (simp_all add: py_float_separator encodable_def)

lemma py_float_abc_x81: "py_float (''abc'' @ [CHR 0x81]) = Inl ValueError"
  by (simp add: py_float_eval)

text \<open>
  Coordinates written with degree signs are no floats; on an ASCII standard output the
  message with the degree sign cannot be printed either.
\<close>

lemma parse_client_degree_sign:
  "parse_client_coordinates ASCII (Str (''33'' @ [CHR 0xB0] @ ''S,68'' @ [CHR 0xB0] @ ''W''))
     = Inl UnicodeEncodeError"
proof -
  have "py_float (''33'' @ [CHR 0xB0] @ ''S'') = Inl ValueError"
    by (simp add: py_float_eval)
  then have "unpack2 py_float (split_on CHR '','' (''33'' @ [CHR 0xB0] @ ''S,68'' @ [CHR 0xB0] @ ''W''))
      = Inl ValueError"
    by simp
  then show ?thesis
    by (rule parse_client_failure_raises) (simp add: encodable_def)
qed

text \<open>
  Claim C4. The claim is that \<open>parse_client_coordinates\<close> never raises to its caller and
  returns \<open>None\<close> on every failure. The code does not keep it: the \<open>print\<close> of the
  handler runs outside the \<open>try\<close>. For the string \<open>abc\<close> followed by the character 0x81,
  \<open>float\<close> raises \<open>ValueError\<close>, the handler prints the message with the string in it,
  and on a cp1252 standard output, which has no encoding for 0x81, the \<open>print\<close> raises
  \<open>UnicodeEncodeError\<close>, which reaches the caller. The same string gives \<open>None\<close> on a
  UTF-8 output.
\<close>

theorem parse_client_coordinates_print_raises:
  "parse_client_coordinates CP1252 (Str (''abc'' @ [CHR 0x81])) = Inl UnicodeEncodeError \<and>
   parse_client_coordinates UTF8 (Str (''abc'' @ [CHR 0x81])) = Inr None"
proof -
  have u: "unpack2 py_float (split_on CHR '','' (''abc'' @ [CHR 0x81])) = Inl ValueError"
    using py_float_abc_x81 by simp
  have n: "\<not> list_all (encodable CP1252) (''abc'' @ [CHR 0x81])"
    by (simp add: encodable_def)
  from u n have a: "parse_client_coordinates CP1252 (Str (''abc'' @ [CHR 0x81])) = Inl UnicodeEncodeError"
    by (rule parse_client_failure_raises)
  from u have b: "parse_client_coordinates UTF8 (Str (''abc'' @ [CHR 0x81])) = Inr None"
    by (rule parse_client_failure) (rule list_all_utf8)
  from a b show ?thesis by blast
qed

section \<open>Properties of the KML loader and of parsed floats\<close>

lemma kml_coord_sets_returns: "\<exists>coords. kml_coord_sets ts = Inr coords"
proof (induction ts)
  case Nil
  show ?case by simp
next
  case (Cons t ts)
  then obtain coords where "kml_coord_sets ts = Inr coords" by blast
  then show ?case
    by (auto simp: Let_def is_ValueError_def split: sum.splits dest: py_float_error)
qed

lemma parse_kml_coordinates_returns: "\<exists>coords. parse_kml_coordinates s = Inr coords"
  by (simp add: parse_kml_coordinates_def kml_coord_sets_returns)

lemma kml_coord_sets_skip:
  "length (split_on CHR '','' t) < 2 \<or>
   py_float (split_on CHR '','' t ! 0) = Inl ValueError \<or>
   py_float (split_on CHR '','' t ! 1) = Inl ValueError \<Longrightarrow>
   kml_coord_sets (t # rest) = kml_coord_sets rest"
  by (auto simp: Let_def is_ValueError_def split: sum.splits dest: py_float_error)

lemma kml_coord_sets_keep:
  "2 \<le> length (split_on CHR '','' t) \<Longrightarrow>
   py_float (split_on CHR '','' t ! 0) = Inr x \<Longrightarrow>
   py_float (split_on CHR '','' t ! 1) = Inr y \<Longrightarrow>
   kml_coord_sets rest = Inr coords \<Longrightarrow>
   kml_coord_sets (t # rest) = Inr ((x, y) # coords)"
  by (simp add: Let_def)

lemma load_kml_polygons_returns: "\<exists>polygons. load_kml_polygons kml = Inr polygons"
proof (induction kml)
  case Nil
  show ?case by simp
next
  case (Cons el kml)
  then obtain polygons where r: "load_kml_polygons kml = Inr polygons" by blast
  show ?case
  proof (cases el)
    case NoOuterBoundary
    with r show ?thesis by simp
  next
    case (OuterBoundary t)
    show ?thesis
    proof (cases t)
      case None
      with OuterBoundary r show ?thesis by simp
    next
      case (Some tx)
      obtain coords where "parse_kml_coordinates tx = Inr coords"
        using parse_kml_coordinates_returns by blast
      with Some OuterBoundary r show ?thesis by simp
    qed
  qed
qed

lemma load_kml_polygons_min3:
  "load_kml_polygons kml = Inr polygons \<Longrightarrow> \<forall>p\<in>set polygons. 3 \<le> length (coordinates p)"
proof (induction kml arbitrary: polygons)
  case Nil
  then show ?case by simp
next
  case (Cons el kml)
  then show ?case
    by (auto split: polygon_elem.splits option.splits if_splits sum.splits)
qed

lemma load_kml_polygons_single:
  "tx \<noteq> [] \<Longrightarrow> parse_kml_coordinates tx = Inr coords \<Longrightarrow>
   load_kml_polygons [OuterBoundary (Some tx)]
     = Inr (if 3 \<le> length coords then [\<lparr>coordinates = coords\<rparr>] else [])"
  by simp

text \<open>
  Claim C7. \<open>load_kml_polygons\<close> returns a list, and every polygon in it has at least
  three vertices: a ring with non-empty text is kept exactly when its text parses to three
  or more coordinate pairs, and is dropped without an error otherwise. While parsing, a
  coordinate set with fewer than two fields or with a field that \<open>float\<close> rejects is
  skipped by itself; the sets after it are still read.
\<close>

theorem load_kml_polygons_three_vertices:
  "(\<exists>polygons. load_kml_polygons kml = Inr polygons) \<and>
   (load_kml_polygons kml = Inr polygons \<longrightarrow> (\<forall>p\<in>set polygons. 3 \<le> length (coordinates p))) \<and>
   (tx \<noteq> [] \<and> parse_kml_coordinates tx = Inr coords \<longrightarrow>
      load_kml_polygons [OuterBoundary (Some tx)]
        = Inr (if 3 \<le> length coords then [\<lparr>coordinates = coords\<rparr>] else [])) \<and>
   (length (split_on CHR '','' t) < 2 \<or>
    py_float (split_on CHR '','' t ! 0) = Inl ValueError \<or>
    py_float (split_on CHR '','' t ! 1) = Inl ValueError \<longrightarrow>
      kml_coord_sets (t # rest) = kml_coord_sets rest)"
  using load_kml_polygons_returns load_kml_polygons_min3 load_kml_polygons_single
    kml_coord_sets_skip
  by (intro conjI impI) blast+

lemma py_float_num: "py_float ''0'' = Inr (Fin 0)" "py_float ''1'' = Inr (Fin 1)"
  "py_float ''4'' = Inr (Fin 4)" "py_float ''x'' = Inl ValueError"
  by (simp_all add: py_float_eval round_overflow_small)

lemma kml_two_pairs: "parse_kml_coordinates ''0,0,0 4,0,0 x,1 4'' = Inr [(Fin 0, Fin 0), (Fin 4, Fin 0)]"
  by (simp add: parse_kml_coordinates_def split_ws_def strip_def is_space_def py_float_num
      is_ValueError_def)

lemma kml_three_pairs:
  "parse_kml_coordinates ''0,0,0 4,0,0 x,1 4 4,4''
     = Inr [(Fin 0, Fin 0), (Fin 4, Fin 0), (Fin 4, Fin 4)]"
  by (simp add: parse_kml_coordinates_def split_ws_def strip_def is_space_def py_float_num
      is_ValueError_def)

theorem load_kml_polygons_three_vertices_witness:
  "load_kml_polygons [OuterBoundary (Some ''0,0,0 4,0,0 x,1 4'')] = Inr [] \<and>
   load_kml_polygons [OuterBoundary (Some ''0,0,0 4,0,0 x,1 4 4,4'')]
     = Inr [\<lparr>coordinates = [(Fin 0, Fin 0), (Fin 4, Fin 0), (Fin 4, Fin 4)]\<rparr>] \<and>
   3 \<le> length (coordinates \<lparr>coordinates = [(Fin 0, Fin 0), (Fin 4, Fin 0), (Fin 4, Fin 4)]\<rparr>) \<and>
   py_float (split_on CHR '','' ''x,1'' ! 0) = Inl ValueError \<and>
   kml_coord_sets [''x,1'', ''4,4''] = kml_coord_sets [''4,4'']"
proof -
  have a: "load_kml_polygons [OuterBoundary (Some ''0,0,0 4,0,0 x,1 4'')] = Inr []"
    using load_kml_polygons_three_vertices [where tx = "''0,0,0 4,0,0 x,1 4''"
        and coords = "[(Fin 0, Fin 0), (Fin 4, Fin 0)]"] kml_two_pairs
    by simp
  have b: "load_kml_polygons [OuterBoundary (Some ''0,0,0 4,0,0 x,1 4 4,4'')]
      = Inr [\<lparr>coordinates = [(Fin 0, Fin 0), (Fin 4, Fin 0), (Fin 4, Fin 4)]\<rparr>]"
    using load_kml_polygons_three_vertices [where tx = "''0,0,0 4,0,0 x,1 4 4,4''"
        and coords = "[(Fin 0, Fin 0), (Fin 4, Fin 0), (Fin 4, Fin 4)]"] kml_three_pairs
    by simp
  have "\<forall>p\<in>set [\<lparr>coordinates = [(Fin 0, Fin 0), (Fin 4, Fin 0), (Fin 4, Fin 4)]\<rparr>].
      3 \<le> length (coordinates p)"
    using load_kml_polygons_three_vertices [where kml = "[OuterBoundary (Some ''0,0,0 4,0,0 x,1 4 4,4'')]"
        and polygons = "[\<lparr>coordinates = [(Fin 0, Fin 0), (Fin 4, Fin 0), (Fin 4, Fin 4)]\<rparr>]"] b
    by blast
  then have c: "3 \<le> length (coordinates \<lparr>coordinates = [(Fin 0, Fin 0), (Fin 4, Fin 0), (Fin 4, Fin 4)]\<rparr>)"
    by simp
  have d: "py_float (split_on CHR '','' ''x,1'' ! 0) = Inl ValueError"
    by (simp add: py_float_num)
  have e: "kml_coord_sets [''x,1'', ''4,4''] = kml_coord_sets [''4,4'']"
    using load_kml_polygons_three_vertices [where t = "''x,1''" and rest = "[''4,4'']"] d
    by blast
  from a b c d e show ?thesis by blast
qed


lemma decimal_value_nonneg: "0 \<le> decimal_value ip fp e"
  by (simp add: decimal_value_def Let_def)

lemma decimal_literal_nonneg: "decimal_literal s = Some v \<Longrightarrow> 0 \<le> v"
  by (auto simp: decimal_literal_def decimal_value_nonneg split: option.splits prod.splits)

lemma round_overflow_finite: "is_finite (round_overflow v) \<longleftrightarrow> \<bar>v\<bar> < overflow_bound"
  using overflow_bound_pos by (auto simp: round_overflow_def is_finite_def)

lemma py_float_finite:
  assumes "py_float t = Inr f"
  shows "is_finite f \<longleftrightarrow>
           \<not> is_infinity_word (unsigned_part t) \<and> \<not> is_nan_word (unsigned_part t) \<and>
           (\<exists>v. decimal_literal (unsigned_part t) = Some v \<and> v < overflow_bound)"
proof -
  obtain neg r where ps: "parse_sign (float_strip t) = (neg, r)"
    by (cases "parse_sign (float_strip t)")
  then have u: "unsigned_part t = r"
    by (simp add: unsigned_part_def)
  show ?thesis
  proof (cases "is_infinity_word r \<or> is_nan_word r")
    case True
    with assms ps have "f = PInf \<or> f = NInf \<or> f = NaN"
      by (auto simp: py_float_def split: if_splits)
    with True u show ?thesis by (auto simp: is_finite_def)
  next
    case False
    with assms ps obtain v where v: "decimal_literal r = Some v"
        and f: "f = round_overflow (if neg then - v else v)"
      by (auto simp: py_float_def split: option.splits)
    from v have "0 \<le> v" by (rule decimal_literal_nonneg)
    then have "\<bar>if neg then - v else v\<bar> = v" by simp
    then have "is_finite f \<longleftrightarrow> v < overflow_bound"
      by (simp add: f round_overflow_finite)
    with False u v show ?thesis by simp
  qed
qed

text \<open>
  Claim C8, as amended. A point returned by \<open>parse_client_coordinates\<close> has as \<open>lat\<close>
  and \<open>lon\<close> the values of \<open>float\<close> on the two comma-separated tokens. Such a value is
  finite exactly when the token, after whitespace and sign, is not one of the words
  \<open>inf\<close>, \<open>infinity\<close>, \<open>nan\<close> and is a decimal literal below the overflow bound;
  otherwise the component is an infinity or NaN, and nothing in the parser rejects it.
\<close>

theorem parse_client_coordinates_components:
  "(parse_client_coordinates stdout c = Inr (Some p) \<longrightarrow>
      (\<exists>s a b. c = Str s \<and> split_on CHR '','' s = [a, b] \<and>
         py_float a = Inr (lat p) \<and> py_float b = Inr (lon p))) \<and>
   (py_float t = Inr f \<longrightarrow>
      (is_finite f \<longleftrightarrow>
         \<not> is_infinity_word (unsigned_part t) \<and> \<not> is_nan_word (unsigned_part t) \<and>
         (\<exists>v. decimal_literal (unsigned_part t) = Some v \<and> v < overflow_bound)))"
  using parse_client_Some py_float_finite by blast

theorem parse_client_coordinates_components_witness:
  "parse_client_coordinates UTF8 (Str ''12.5,34.2'')
     = Inr (Some \<lparr>lon = Fin 34.2, lat = Fin 12.5\<rparr>) \<and>
   (\<exists>s a b. Str ''12.5,34.2'' = Str s \<and> split_on CHR '','' s = [a, b] \<and>
      py_float a = Inr (Fin 12.5) \<and> py_float b = Inr (Fin 34.2)) \<and>
   py_float ''12.5'' = Inr (Fin 12.5) \<and> is_finite (Fin 12.5) \<and>
   decimal_literal (unsigned_part ''12.5'') = Some 12.5"
proof -
  have p: "parse_client_coordinates UTF8 (Str ''12.5,34.2'')
      = Inr (Some \<lparr>lon = Fin 34.2, lat = Fin 12.5\<rparr>)"
    by (rule parse_client_success [OF _ py_float_12_5 py_float_34_2]) simp
  from parse_client_coordinates_components [where c = "Str ''12.5,34.2''"
      and p = "\<lparr>lon = Fin 34.2, lat = Fin 12.5\<rparr>" and stdout = UTF8] p
  have e: "\<exists>s a b. Str ''12.5,34.2'' = Str s \<and> split_on CHR '','' s = [a, b] \<and>
      py_float a = Inr (Fin 12.5) \<and> py_float b = Inr (Fin 34.2)"
    by simp
  from parse_client_coordinates_components [where t = "''12.5''" and f = "Fin 12.5"] py_float_12_5
  have "is_finite (Fin 12.5) \<longleftrightarrow>
         \<not> is_infinity_word (unsigned_part ''12.5'') \<and> \<not> is_nan_word (unsigned_part ''12.5'') \<and>
         (\<exists>v. decimal_literal (unsigned_part ''12.5'') = Some v \<and> v < overflow_bound)"
    by blast
  then have fin: "is_finite (Fin 12.5)"
    by (simp add: is_finite_def)
  have d: "decimal_literal (unsigned_part ''12.5'') = Some 12.5"
    by (simp add: unsigned_part_def py_float_eval)
  from p e py_float_12_5 fin d show ?thesis by blast
qed

text \<open>
  The string \<open>inf,nan\<close> parses to a point whose latitude is an infinity and whose
  longitude is NaN: the claim that every parsed point is finite fails there.
\<close>

theorem parse_client_coordinates_nonfinite:
  "parse_client_coordinates UTF8 (Str ''inf,nan'') = Inr (Some \<lparr>lon = NaN, lat = PInf\<rparr>) \<and>
   \<not> point_finite \<lparr>lon = NaN, lat = PInf\<rparr>"
proof -
  have "parse_client_coordinates UTF8 (Str ''inf,nan'') = Inr (Some \<lparr>lon = NaN, lat = PInf\<rparr>)"
    by (rule parse_client_success [OF _ py_float_inf py_float_nan]) simp
  then show ?thesis by (simp add: point_finite_def is_finite_def)
qed


section \<open>Properties of the annotation pipeline\<close>
















lemma parse_1_1: "parse_client_coordinates UTF8 (Str ''1,1'') = Inr (Some \<lparr>lon = Fin 1, lat = Fin 1\<rparr>)"
  by (rule parse_client_success [OF _ py_float_num(2) py_float_num(2)]) simp




text \<open>
  An input table that already has a column \<open>Inside_Zone\<close> keeps its number of columns:
  the flags replace the old values in place. Without a column \<open>Punto gps\<close> the lookup
  raises \<open>KeyError\<close>.
\<close>

lemma main_frame_overwrites_flag_column:
  "main_frame [(''Punto gps'', [Str ''1,1'']), (''Inside_Zone'', [Str ''si''])] []
     = Inr [(''Punto gps'', [Cell (Str ''1,1'')]), (''Inside_Zone'', [BoolV False])]"
  by (simp add: main_frame_def frame_of_table_def get_column_def set_column_def has_column_def
      drop_column_def parse_1_1)

lemma main_frame_missing_gps_column:
  "main_frame [(''Codigo'', [Str ''A1''])] [] = Inl KeyError"
  by (simp add: main_frame_def frame_of_table_def get_column_def)

end
